theory Spec2Isabelle
  imports Complex_Main "HOL-Library.Char_ord" "HOL-Library.List_Lexorder"
begin

section \<open>Go strings and the functions of package \<^verbatim>\<open>strings\<close> the downloader calls\<close>

text \<open>
  A Go string is a sequence of bytes, here a \<^typ>\<open>string\<close> (a list of 8-bit characters).
  The functions of this section are the Go standard library's, which package
  \<^verbatim>\<open>downloader\<close> imports; they are written out as the library documents them, on bytes.
\<close>

text \<open>The six ASCII white-space bytes: tab, line feed, vertical tab, form feed, carriage
  return and space.\<close>

definition asciiSpace :: "char \<Rightarrow> bool" where
  "asciiSpace c \<longleftrightarrow>
     c = CHR 0x09 \<or> c = CHR 0x0A \<or> c = CHR 0x0B \<or> c = CHR 0x0C \<or> c = CHR 0x0D \<or> c = CHR 0x20"

text \<open>The UTF-8 encodings of the other runes \<^verbatim>\<open>unicode.IsSpace\<close> accepts: U+0085, U+00A0
  (two bytes) and U+1680, U+2000 to U+200A, U+2028, U+2029, U+202F, U+205F, U+3000 (three
  bytes).\<close>

definition spaces2 :: "string list" where
  "spaces2 = [[CHR 0xC2, CHR 0x85], [CHR 0xC2, CHR 0xA0]]"

definition spaces3 :: "string list" where
  "spaces3 =
     [[CHR 0xE1, CHR 0x9A, CHR 0x80],
      [CHR 0xE2, CHR 0x80, CHR 0x80], [CHR 0xE2, CHR 0x80, CHR 0x81],
      [CHR 0xE2, CHR 0x80, CHR 0x82], [CHR 0xE2, CHR 0x80, CHR 0x83],
      [CHR 0xE2, CHR 0x80, CHR 0x84], [CHR 0xE2, CHR 0x80, CHR 0x85],
      [CHR 0xE2, CHR 0x80, CHR 0x86], [CHR 0xE2, CHR 0x80, CHR 0x87],
      [CHR 0xE2, CHR 0x80, CHR 0x88], [CHR 0xE2, CHR 0x80, CHR 0x89],
      [CHR 0xE2, CHR 0x80, CHR 0x8A],
      [CHR 0xE2, CHR 0x80, CHR 0xA8], [CHR 0xE2, CHR 0x80, CHR 0xA9],
      [CHR 0xE2, CHR 0x80, CHR 0xAF],
      [CHR 0xE2, CHR 0x81, CHR 0x9F],
      [CHR 0xE3, CHR 0x80, CHR 0x80]]"

text \<open>The width in bytes of the white-space rune a string starts with (0 when it starts
  with none), and of the one it ends with.\<close>

definition spaceWidth :: "string \<Rightarrow> nat" where
  "spaceWidth s =
     (if s \<noteq> [] \<and> asciiSpace (hd s) then 1
      else if take 2 s \<in> set spaces2 then 2
      else if take 3 s \<in> set spaces3 then 3
      else 0)"

definition spaceWidthRight :: "string \<Rightarrow> nat" where
  "spaceWidthRight s =
     (if s \<noteq> [] \<and> asciiSpace (last s) then 1
      else if drop (length s - 2) s \<in> set spaces2 then 2
      else if drop (length s - 3) s \<in> set spaces3 then 3
      else 0)"

lemma spaceWidth_le: "spaceWidth s \<le> length s"
  by (cases s; cases "tl s"; cases "tl (tl s)")
     (auto simp: spaceWidth_def spaces2_def spaces3_def)

lemma spaceWidth_decreases: "0 < spaceWidth s \<Longrightarrow> length s - spaceWidth s < length s"
  using spaceWidth_le [of s] by arith

lemma spaceWidthRight_decreases:
  "0 < spaceWidthRight s \<Longrightarrow> length s - spaceWidthRight s < length s"
  by (cases "s = []") (auto simp: spaceWidthRight_def spaces2_def spaces3_def split: if_splits)

text \<open>\<^verbatim>\<open>strings.TrimLeftFunc(s, unicode.IsSpace)\<close> and
  \<^verbatim>\<open>strings.TrimRightFunc(s, unicode.IsSpace)\<close>: white-space runes are removed one at a
  time until the string starts (ends) with something else.\<close>

function TrimLeft :: "string \<Rightarrow> string" where
  "TrimLeft s = (if spaceWidth s = 0 then s else TrimLeft (drop (spaceWidth s) s))"
  by pat_completeness auto
termination
  by (relation "measure length") (simp_all add: spaceWidth_decreases)

function TrimRight :: "string \<Rightarrow> string" where
  "TrimRight s =
     (if spaceWidthRight s = 0 then s else TrimRight (take (length s - spaceWidthRight s) s))"
  by pat_completeness auto
termination
  by (relation "measure length") (simp_all add: spaceWidthRight_decreases)

declare TrimLeft.simps [simp del] TrimRight.simps [simp del]

text \<open>\<^verbatim>\<open>strings.TrimSpace(s)\<close>: leading, then trailing white space removed.\<close>

definition TrimSpace :: "string \<Rightarrow> string" where
  "TrimSpace s = TrimRight (TrimLeft s)"

text \<open>\<^verbatim>\<open>strings.TrimSuffix(s, suffix)\<close>.\<close>

definition TrimSuffix :: "string \<Rightarrow> string \<Rightarrow> string" where
  "TrimSuffix s suffix =
     (if length suffix \<le> length s \<and> drop (length s - length suffix) s = suffix
      then take (length s - length suffix) s else s)"

text \<open>\<^verbatim>\<open>strings.Split(s, sep)\<close> for a separator of one byte: the pieces of \<open>s\<close> between the
  occurrences of the separator, one more than there are occurrences.\<close>

fun Split :: "string \<Rightarrow> char \<Rightarrow> string list" where
  "Split [] sep = [[]]"
| "Split (c # cs) sep =
     (if c = sep then [] # Split cs sep
      else (case Split cs sep of p # ps \<Rightarrow> (c # p) # ps | [] \<Rightarrow> [[c]]))"

text \<open>\<^verbatim>\<open>strings.EqualFold(s, t)\<close> when \<open>t\<close> is ASCII without the letters \<^verbatim>\<open>k\<close> and \<^verbatim>\<open>s\<close> (the
  only ASCII letters Unicode folds together with a rune outside ASCII): equality of the
  bytes up to the case of the letters A to Z.\<close>

definition toLower :: "char \<Rightarrow> char" where
  "toLower c =
     (if CHR ''A'' \<le> c \<and> c \<le> CHR ''Z''
      then (case c of Char b0 b1 b2 b3 b4 b5 b6 b7 \<Rightarrow> Char b0 b1 b2 b3 b4 True b6 b7)
      else c)"

definition EqualFold :: "string \<Rightarrow> string \<Rightarrow> bool" where
  "EqualFold s t \<longleftrightarrow> map toLower s = map toLower t"

section \<open>\<^verbatim>\<open>strconv.ParseFloat(s, 64)\<close>\<close>

text \<open>
  A float64 is a finite number (its sign and its magnitude, so that the two zeros differ),
  an infinity or NaN. \<^verbatim>\<open>ParseFloat\<close> is the Go standard library's as well: the scanner
  below follows \<^verbatim>\<open>special\<close>, \<^verbatim>\<open>readFloat\<close> and \<^verbatim>\<open>underscoreOK\<close> of package \<^verbatim>\<open>strconv\<close>, and the
  conversion is the one the library documents: the float64 nearest to the number written,
  ties to the even mantissa, and a range error beyond the largest float64.
\<close>

datatype float64 = Finite bool rat | Infinity bool | NaN

datatype NumError = ErrSyntax | ErrRange

definition isDigit :: "char \<Rightarrow> bool" where
  "isDigit c \<longleftrightarrow> CHR ''0'' \<le> c \<and> c \<le> CHR ''9''"

definition digitVal :: "char \<Rightarrow> nat" where
  "digitVal c = of_char c - 48"

text \<open>\<^verbatim>\<open>lower(c)\<close> of package \<^verbatim>\<open>strconv\<close> is \<^verbatim>\<open>c | ('x' - 'X')\<close>: bit 5 set.\<close>

definition lower :: "char \<Rightarrow> char" where
  "lower c = (case c of Char b0 b1 b2 b3 b4 b5 b6 b7 \<Rightarrow> Char b0 b1 b2 b3 b4 True b6 b7)"

definition isHexLetter :: "char \<Rightarrow> bool" where
  "isHexLetter c \<longleftrightarrow> CHR ''a'' \<le> lower c \<and> lower c \<le> CHR ''f''"

definition hexVal :: "char \<Rightarrow> nat" where
  "hexVal c = of_char (lower c) - 97 + 10"

fun commonPrefixLenIgnoreCase :: "string \<Rightarrow> string \<Rightarrow> nat" where
  "commonPrefixLenIgnoreCase (c # cs) (p # ps) =
     (if toLower c = p then Suc (commonPrefixLenIgnoreCase cs ps) else 0)"
| "commonPrefixLenIgnoreCase _ _ = 0"

text \<open>\<^verbatim>\<open>special\<close>: the infinities and NaN, with the number of bytes read.\<close>

definition infinityLen :: "string \<Rightarrow> nat" where
  "infinityLen s =
     (let n = commonPrefixLenIgnoreCase s ''infinity'' in if 3 < n \<and> n < 8 then 3 else n)"

definition special :: "string \<Rightarrow> (float64 \<times> nat) option" where
  "special s =
     (if s = [] then None
      else if hd s = CHR ''+'' \<or> hd s = CHR ''-'' then
        (if infinityLen (tl s) = 3 \<or> infinityLen (tl s) = 8
         then Some (Infinity (hd s = CHR ''-''), 1 + infinityLen (tl s)) else None)
      else if hd s = CHR ''i'' \<or> hd s = CHR ''I'' then
        (if infinityLen s = 3 \<or> infinityLen s = 8
         then Some (Infinity False, infinityLen s) else None)
      else if hd s = CHR ''n'' \<or> hd s = CHR ''N'' then
        (if commonPrefixLenIgnoreCase s ''nan'' = 3 then Some (NaN, 3) else None)
      else None)"

text \<open>The mantissa loop of \<^verbatim>\<open>readFloat\<close>. \<open>mantissa\<close> holds all the digits read (the
  library keeps the first 19, or 16 in base 16, and a flag for the rest, to the same
  rounded result).\<close>

record scan =
  sawdot :: bool
  sawdigits :: bool
  nd :: nat
  dp :: int
  mantissa :: nat
  underscores :: bool

definition scan0 :: scan where
  "scan0 = \<lparr>sawdot = False, sawdigits = False, nd = 0, dp = 0, mantissa = 0,
            underscores = False\<rparr>"

fun mantissaLoop :: "nat \<Rightarrow> scan \<Rightarrow> string \<Rightarrow> scan \<times> string" where
  "mantissaLoop base st [] = (st, [])"
| "mantissaLoop base st (c # cs) =
     (if c = CHR ''_'' then mantissaLoop base (st\<lparr>underscores := True\<rparr>) cs
      else if c = CHR ''.'' then
        (if sawdot st then (st, c # cs)
         else mantissaLoop base (st\<lparr>sawdot := True, dp := int (nd st)\<rparr>) cs)
      else if isDigit c then
        (if c = CHR ''0'' \<and> nd st = 0
         then mantissaLoop base (st\<lparr>sawdigits := True, dp := dp st - 1\<rparr>) cs
         else mantissaLoop base
                (st\<lparr>sawdigits := True, nd := nd st + 1,
                     mantissa := mantissa st * base + digitVal c\<rparr>) cs)
      else if base = 16 \<and> isHexLetter c then
        mantissaLoop base
          (st\<lparr>sawdigits := True, nd := nd st + 1, mantissa := mantissa st * 16 + hexVal c\<rparr>) cs
      else (st, c # cs))"

text \<open>The digits of the exponent; the exponent stops growing at 10000.\<close>

fun expDigits :: "nat \<Rightarrow> bool \<Rightarrow> string \<Rightarrow> nat \<times> bool \<times> string" where
  "expDigits e us [] = (e, us, [])"
| "expDigits e us (c # cs) =
     (if c = CHR ''_'' then expDigits e True cs
      else if isDigit c then expDigits (if e < 10000 then e * 10 + digitVal c else e) us cs
      else (e, us, c # cs))"

text \<open>\<^verbatim>\<open>underscoreOK\<close>: an underscore stands only between digits, or between a base prefix
  and a digit. \<open>saw\<close> is the last character seen, as in the library: \<^verbatim>\<open>^\<close> at the start,
  \<^verbatim>\<open>0\<close> for a digit or a base prefix, \<^verbatim>\<open>_\<close> for an underscore, \<^verbatim>\<open>!\<close> for anything else.\<close>

fun underscoreLoop :: "bool \<Rightarrow> char \<Rightarrow> string \<Rightarrow> bool" where
  "underscoreLoop hex saw [] = (saw \<noteq> CHR ''_'')"
| "underscoreLoop hex saw (c # cs) =
     (if isDigit c \<or> (hex \<and> isHexLetter c) then underscoreLoop hex (CHR ''0'') cs
      else if c = CHR ''_'' then
        (if saw \<noteq> CHR ''0'' then False else underscoreLoop hex (CHR ''_'') cs)
      else if saw = CHR ''_'' then False
      else underscoreLoop hex (CHR ''!'') cs)"

definition underscoreOK :: "string \<Rightarrow> bool" where
  "underscoreOK s0 =
     (let s = (if s0 \<noteq> [] \<and> (hd s0 = CHR ''-'' \<or> hd s0 = CHR ''+'') then tl s0 else s0);
          pre = (2 \<le> length s \<and> s ! 0 = CHR ''0'' \<and>
                 (lower (s ! 1) = CHR ''b'' \<or> lower (s ! 1) = CHR ''o'' \<or>
                  lower (s ! 1) = CHR ''x''));
          hex = (pre \<and> lower (s ! 1) = CHR ''x'')
      in underscoreLoop hex (if pre then CHR ''0'' else CHR ''^'') (if pre then drop 2 s else s))"

text \<open>The parts of \<^verbatim>\<open>readFloat\<close> before and after the mantissa: the optional sign, the base
  prefix \<^verbatim>\<open>0x\<close> (read as such only when a byte follows it), and the optional exponent, which
  a hexadecimal number must have; for the exponent \<open>None\<close> is \<^verbatim>\<open>!ok\<close>.\<close>

definition readSign :: "string \<Rightarrow> bool \<times> string" where
  "readSign s =
     (if s \<noteq> [] \<and> hd s = CHR ''+'' then (False, tl s)
      else if s \<noteq> [] \<and> hd s = CHR ''-'' then (True, tl s)
      else (False, s))"

definition readBasePrefix :: "string \<Rightarrow> bool \<times> string" where
  "readBasePrefix s =
     (if 2 < length s \<and> s ! 0 = CHR ''0'' \<and> lower (s ! 1) = CHR ''x'' then (True, drop 2 s)
      else (False, s))"

definition readExponent :: "bool \<Rightarrow> bool \<Rightarrow> string \<Rightarrow> (int \<times> bool \<times> string) option" where
  "readExponent hex us s =
     (if s \<noteq> [] \<and> lower (hd s) = (if hex then CHR ''p'' else CHR ''e'') then
        (let s1 = tl s in
         if s1 = [] then None
         else
           let esign = (if hd s1 = CHR ''-'' then - 1 else 1);
               s2 = (if hd s1 = CHR ''+'' \<or> hd s1 = CHR ''-'' then tl s1 else s1)
           in if s2 = [] \<or> \<not> isDigit (hd s2) then None
              else (case expDigits 0 us s2 of
                      (e, us', rest) \<Rightarrow> Some (int e * esign, us', rest)))
      else if hex then None
      else Some (0, us, s))"

text \<open>\<^verbatim>\<open>readFloat\<close>: the sign, whether the number is hexadecimal, the mantissa, the exponent
  (of 10, or of 2 for a hexadecimal number) and the bytes left unread; \<open>None\<close> is \<^verbatim>\<open>!ok\<close>.\<close>

definition readFloatResult ::
  "string \<Rightarrow> bool \<Rightarrow> bool \<Rightarrow> nat \<Rightarrow> int \<Rightarrow> bool \<Rightarrow> string \<Rightarrow>
   (bool \<times> bool \<times> nat \<times> int \<times> string) option" where
  "readFloatResult s neg hex m ex us rest =
     (if us \<and> \<not> underscoreOK (take (length s - length rest) s) then None
      else Some (neg, hex, m, if m \<noteq> 0 then ex else 0, rest))"

definition readFloat :: "string \<Rightarrow> (bool \<times> bool \<times> nat \<times> int \<times> string) option" where
  "readFloat s =
     (if s = [] then None
      else
        (case readSign s of
           (neg, s1) \<Rightarrow>
             (case readBasePrefix s1 of
                (hex, s2) \<Rightarrow>
                  (case mantissaLoop (if hex then 16 else 10) scan0 s2 of
                     (st, s3) \<Rightarrow>
                       if \<not> sawdigits st then None
                       else
                         let dp0 = (if sawdot st then dp st else int (nd st));
                             dp1 = (if hex then dp0 * 4 else dp0);
                             ndMant = (if hex then int (nd st) * 4 else int (nd st))
                         in (case readExponent hex (underscores st) s3 of
                               None \<Rightarrow> None
                             | Some (e, us, rest) \<Rightarrow>
                                 readFloatResult s neg hex (mantissa st)
                                   (dp1 + e - ndMant) us rest)))))"

text \<open>The float64 nearest to \<open>num / den\<close> (\<open>den\<close> positive), ties to even; \<open>None\<close> when it
  is beyond the largest float64. A float64 of exponent \<open>e\<close> is a multiple of
  \<open>2 ^ (e - 52)\<close>, and of \<open>2 ^ (- 1074)\<close> below \<open>2 ^ (- 1022)\<close>.\<close>

fun bit_length :: "nat \<Rightarrow> nat" where
  "bit_length n = (if n = 0 then 0 else Suc (bit_length (n div 2)))"

declare bit_length.simps [simp del]

definition floorLog2 :: "nat \<Rightarrow> nat \<Rightarrow> int" where
  "floorLog2 num den =
     (let d = int (bit_length num) - int (bit_length den) in
      if (if 0 \<le> d then den * 2 ^ nat d \<le> num else den \<le> num * 2 ^ nat (- d))
      then d else d - 1)"

definition roundHalfEven :: "nat \<Rightarrow> nat \<Rightarrow> nat" where
  "roundHalfEven num den =
     (let q = num div den; r = num mod den in
      if 2 * r < den then q else if den < 2 * r then q + 1
      else if even q then q else q + 1)"

definition nearestFloat64 :: "bool \<Rightarrow> nat \<Rightarrow> nat \<Rightarrow> float64 option" where
  "nearestFloat64 neg num den =
     (if num = 0 then Some (Finite neg 0)
      else
        let k = max (floorLog2 num den) (- 1022) - 52;
            m = (if 0 \<le> k then roundHalfEven num (den * 2 ^ nat k)
                 else roundHalfEven (num * 2 ^ nat (- k)) den)
        in if 0 \<le> k \<and> 2 ^ 1024 \<le> m * 2 ^ nat k then None
           else Some (Finite neg
                  (if 0 \<le> k then of_nat (m * 2 ^ nat k)
                   else of_nat m / of_nat (2 ^ nat (- k)))))"

definition ParseFloat :: "string \<Rightarrow> NumError + float64" where
  "ParseFloat s =
     (case special s of
        Some (v, n) \<Rightarrow> if n = length s then Inr v else Inl ErrSyntax
      | None \<Rightarrow>
         (case readFloat s of
            None \<Rightarrow> Inl ErrSyntax
          | Some (neg, hex, m, ex, rest) \<Rightarrow>
              if rest \<noteq> [] then Inl ErrSyntax
              else
                (case (if 0 \<le> ex
                       then nearestFloat64 neg (m * (if hex then 2 else 10) ^ nat ex) 1
                       else nearestFloat64 neg m ((if hex then 2 else 10) ^ nat (- ex))) of
                   None \<Rightarrow> Inl ErrRange
                 | Some f \<Rightarrow> Inr f)))"

section \<open>Package \<^verbatim>\<open>downloader\<close>: the progress record decoder\<close>

record ProgressUpdate =
  Percent :: float64
  ETA :: string
  Speed :: string
  Raw :: string

definition progressPartsCount :: nat where
  "progressPartsCount = 3"

text \<open>\<^verbatim>\<open>ProgressUpdate{Raw: line}\<close>: the other fields hold their zero values.\<close>

definition rawOnly :: "string \<Rightarrow> ProgressUpdate" where
  "rawOnly line = \<lparr>Percent = Finite False 0, ETA = [], Speed = [], Raw = line\<rparr>"

definition parseProgress :: "string \<Rightarrow> ProgressUpdate \<times> bool" where
  "parseProgress line =
     (let parts = Split line (CHR ''|'') in
      if length parts \<noteq> progressPartsCount then (rawOnly line, False)
      else
        let rawPercent = TrimSpace (TrimSuffix (parts ! 0) ''%'');
            eta = TrimSpace (parts ! 1);
            speed = TrimSpace (parts ! 2)
        in if rawPercent = [] \<or> EqualFold rawPercent ''N/A'' then (rawOnly line, False)
           else
             (case ParseFloat rawPercent of
                Inl err \<Rightarrow> (rawOnly line, False)
              | Inr percent \<Rightarrow>
                  (\<lparr>Percent = percent, ETA = eta, Speed = speed, Raw = line\<rparr>, True)))"

section \<open>Package \<^verbatim>\<open>downloader\<close>: the stream writers\<close>

text \<open>
  Go errors: the three configuration errors of the package, \<^verbatim>\<open>io.ErrShortWrite\<close>, an error
  from outside the package (a caller's sink, the process, the context) and the errors
  \<^verbatim>\<open>fmt.Errorf\<close> wraps.
\<close>

datatype error =
    errEmptyBinaryPath
  | errURLRequired
  | errBinaryNotConfigured
  | ErrShortWrite
  | External string
  | WritePassthrough error
  | BufferOutput error
  | ContextDone error
  | YtDlpFailed error string

text \<open>An \<^verbatim>\<open>io.Writer\<close> on a state \<open>'s\<close>: \<^verbatim>\<open>Write(p)\<close> returns \<^verbatim>\<open>(n, err)\<close> and the state
  it leaves. A caller's sink writes on a state \<open>'w\<close> outside the package, about which
  nothing is known.\<close>

type_synonym 's Writer = "string \<Rightarrow> 's \<Rightarrow> (int \<times> error option) \<times> 's"

text \<open>What the writers of one stream hold: the accumulation buffer \<^verbatim>\<open>buf\<close>, the pending
  line \<^verbatim>\<open>lineBuf\<close>, and the updates the progress callback was called with, in order.\<close>

record writerState =
  buf :: string
  lineBuf :: string
  calls :: "ProgressUpdate list"

definition emptyWriterState :: writerState where
  "emptyWriterState = \<lparr>buf = [], lineBuf = [], calls = []\<rparr>"

text \<open>\<^verbatim>\<open>(*bytes.Buffer).Write\<close>: the bytes are appended, \<open>n\<close> is their number and the error is
  always nil.\<close>

definition bufferWrite :: "writerState Writer" where
  "bufferWrite p st = ((int (length p), None), st\<lparr>buf := buf st @ p\<rparr>)"

definition onBuffer :: "(writerState \<times> 'w) Writer" where
  "onBuffer p = (\<lambda>(st, w). case bufferWrite p st of (r, st') \<Rightarrow> (r, (st', w)))"

definition onWorld :: "'w Writer \<Rightarrow> (writerState \<times> 'w) Writer" where
  "onWorld extra p = (\<lambda>(st, w). case extra p w of (r, w') \<Rightarrow> (r, (st, w')))"

text \<open>\<^verbatim>\<open>io.MultiWriter\<close>: each writer in turn; the first error, or the first short write,
  ends the write.\<close>

fun multiWriter :: "'s Writer list \<Rightarrow> 's Writer" where
  "multiWriter [] p s = ((int (length p), None), s)"
| "multiWriter (wr # wrs) p s =
     (case wr p s of
        ((n, Some err), s') \<Rightarrow> ((n, Some err), s')
      | ((n, None), s') \<Rightarrow>
          if n \<noteq> int (length p) then ((n, Some ErrShortWrite), s')
          else multiWriter wrs p s')"

definition teeWriter :: "'w Writer option \<Rightarrow> (writerState \<times> 'w) Writer" where
  "teeWriter extra =
     (case extra of
        None \<Rightarrow> onBuffer
      | Some ex \<Rightarrow> multiWriter [onWorld ex, onBuffer])"

text \<open>One byte of a chunk in the loop of \<^verbatim>\<open>progressWriter\<close>; \<^verbatim>\<open>callback(upd)\<close> appends
  \<open>upd\<close> to \<open>calls\<close>.\<close>

definition lineStep :: "writerState \<Rightarrow> char \<Rightarrow> writerState" where
  "lineStep st b =
     (let st1 = st\<lparr>lineBuf := lineBuf st @ [b]\<rparr> in
      if b = CHR 0x0A then
        (let line = TrimSpace (lineBuf st1);
             st2 = st1\<lparr>lineBuf := []\<rparr>
         in case parseProgress line of
              (upd, ok) \<Rightarrow> if ok then st2\<lparr>calls := calls st2 @ [upd]\<rparr> else st2)
      else st1)"

text \<open>\<^verbatim>\<open>progressWriter(callback, extra)\<close>; \<open>callback\<close> is whether the callback is not nil.\<close>

definition progressWriter :: "bool \<Rightarrow> 'w Writer option \<Rightarrow> (writerState \<times> 'w) Writer" where
  "progressWriter callback extra =
     (if \<not> callback then teeWriter extra
      else
        (\<lambda>chunk s.
           case (case extra of
                   None \<Rightarrow> ((0, None), s)
                 | Some ex \<Rightarrow> onWorld ex chunk s) of
             ((n, Some err), s1) \<Rightarrow> ((0, Some (WritePassthrough err)), s1)
           | ((n, None), s1) \<Rightarrow>
               (case onBuffer chunk s1 of
                  ((n', Some err), s2) \<Rightarrow> ((0, Some (BufferOutput err)), s2)
                | ((n', None), (st, w)) \<Rightarrow>
                    ((int (length chunk), None), (foldl lineStep st chunk, w)))))"

text \<open>A sequence of writes on one writer: every chunk is written, whatever the writes
  before it returned, and the results are kept in order.\<close>

fun writeAll :: "'s Writer \<Rightarrow> string list \<Rightarrow> 's \<Rightarrow> (int \<times> error option) list \<times> 's" where
  "writeAll wr [] s = ([], s)"
| "writeAll wr (p # ps) s =
     (case wr p s of
        (r, s') \<Rightarrow> (case writeAll wr ps s' of (rs, s'') \<Rightarrow> (r # rs, s'')))"

text \<open>The chunks whose write returned no error.\<close>

definition accepted :: "string list \<Rightarrow> (int \<times> error option) list \<Rightarrow> string list" where
  "accepted ps rs = map fst (filter (\<lambda>(p, r). snd r = None) (zip ps rs))"

section \<open>Package \<^verbatim>\<open>downloader\<close>: the arguments and \<^verbatim>\<open>Download\<close>\<close>

text \<open>
  \<^verbatim>\<open>Options\<close>. The map \<^verbatim>\<open>Headers\<close> is the list of its entries, in the order a \<^verbatim>\<open>range\<close> over
  it yields them (any order; the keys of a map are distinct). The two sinks are \<open>None\<close>
  when nil, and \<open>Progress\<close> is whether the callback is not nil.
\<close>

record 'w Options =
  OutputTemplate :: string
  Format :: string
  Proxy :: string
  CookiesFile :: string
  Headers :: "(string \<times> string) list"
  ExtraArgs :: "string list"
  WorkDir :: string
  StdoutSink :: "'w Writer option"
  StderrSink :: "'w Writer option"
  Progress :: bool

record Result =
  Stdout :: string
  Stderr :: string

record Downloader =
  binPath :: string

definition progressTemplate :: string where
  "progressTemplate =
     ''%(progress._percent_str)s|%(progress._eta_str)s|%(progress._speed_str)s''"

text \<open>The loop of \<^verbatim>\<open>buildArgs\<close> over the sorted keys; a key the map does not hold reads as
  the empty string.\<close>

fun addHeaders :: "(string \<times> string) list \<Rightarrow> string list \<Rightarrow> string list \<Rightarrow> string list" where
  "addHeaders hs [] args = args"
| "addHeaders hs (headerKey # keys) args =
     (let v = TrimSpace (case map_of hs headerKey of Some x \<Rightarrow> x | None \<Rightarrow> []) in
      if v = [] then addHeaders hs keys args
      else addHeaders hs keys (args @ [''--add-header'', headerKey @ '':'' @ v]))"

definition buildArgs :: "string \<Rightarrow> 'w Options \<Rightarrow> string list" where
  "buildArgs url opts =
     (let args = [''--newline''];
          args = (if Progress opts then args @ [''--progress-template'', progressTemplate]
                  else args @ [''--no-progress'']);
          args = (if OutputTemplate opts \<noteq> [] then args @ [''-o'', OutputTemplate opts]
                  else args);
          args = (if Format opts \<noteq> [] then args @ [''-f'', Format opts] else args);
          args = (if Proxy opts \<noteq> [] then args @ [''--proxy'', Proxy opts] else args);
          args = (if CookiesFile opts \<noteq> [] then args @ [''--cookies'', CookiesFile opts]
                  else args);
          args = (if 0 < length (Headers opts)
                  then addHeaders (Headers opts) (sort (map fst (Headers opts))) args
                  else args);
          args = args @ ExtraArgs opts
      in args @ [url])"

text \<open>
  The command \<^verbatim>\<open>Download\<close> runs, and what \<^verbatim>\<open>cmd.Run()\<close> of package \<^verbatim>\<open>os/exec\<close> does with
  it as far as the downloader can tell: the chunks it writes to the two writers, in the
  order it writes them, the error it returns, and what \<^verbatim>\<open>ctx.Err()\<close> is afterwards.
  Nothing else is assumed of the process.
\<close>

record Cmd =
  Path :: string
  Args :: "string list"
  Dir :: string

datatype event = StdoutChunk string | StderrChunk string

record Run =
  writes :: "event list"
  runErr :: "error option"
  ctxErr :: "error option"

fun runWrites ::
  "(writerState \<times> 'w) Writer \<Rightarrow> (writerState \<times> 'w) Writer \<Rightarrow> event list \<Rightarrow>
   writerState \<times> writerState \<times> 'w \<Rightarrow>
   (int \<times> error option) list \<times> writerState \<times> writerState \<times> 'w" where
  "runWrites stdoutWriter stderrWriter [] s = ([], s)"
| "runWrites stdoutWriter stderrWriter (StdoutChunk p # es) (so, se, w) =
     (case stdoutWriter p (so, w) of
        (r, (so', w')) \<Rightarrow>
          (case runWrites stdoutWriter stderrWriter es (so', se, w') of
             (rs, s') \<Rightarrow> (r # rs, s')))"
| "runWrites stdoutWriter stderrWriter (StderrChunk p # es) (so, se, w) =
     (case stderrWriter p (se, w) of
        (r, (se', w')) \<Rightarrow>
          (case runWrites stdoutWriter stderrWriter es (so, se', w') of
             (rs, s') \<Rightarrow> (r # rs, s')))"

text \<open>The bytes of the chunks of each stream whose write returned no error, given the
  writes and their results.\<close>

fun stdoutAccepted :: "event list \<Rightarrow> (int \<times> error option) list \<Rightarrow> string" where
  "stdoutAccepted (StdoutChunk p # es) (r # rs) =
     (if snd r = None then p @ stdoutAccepted es rs else stdoutAccepted es rs)"
| "stdoutAccepted (StderrChunk p # es) (r # rs) = stdoutAccepted es rs"
| "stdoutAccepted _ _ = []"

fun stderrAccepted :: "event list \<Rightarrow> (int \<times> error option) list \<Rightarrow> string" where
  "stderrAccepted (StderrChunk p # es) (r # rs) =
     (if snd r = None then p @ stderrAccepted es rs else stderrAccepted es rs)"
| "stderrAccepted (StdoutChunk p # es) (r # rs) = stderrAccepted es rs"
| "stderrAccepted _ _ = []"

text \<open>\<^verbatim>\<open>Download\<close>: the result and the error, and with them the calls of the progress callback
  and the state the sinks are left in. \<open>exec\<close> is the process: what running a command
  does.\<close>

definition Download ::
  "Downloader \<Rightarrow> (Cmd \<Rightarrow> Run) \<Rightarrow> string \<Rightarrow> 'w Options \<Rightarrow> 'w \<Rightarrow>
   (Result option \<times> error option) \<times> ProgressUpdate list \<times> 'w" where
  "Download d exec url opts w =
     (if url = [] then ((None, Some errURLRequired), [], w)
      else if binPath d = [] then ((None, Some errBinaryNotConfigured), [], w)
      else
        let args = buildArgs url opts;
            cmd = \<lparr>Path = binPath d, Args = args, Dir = WorkDir opts\<rparr>;
            stdoutWriter = progressWriter (Progress opts) (StdoutSink opts);
            stderrWriter = teeWriter (StderrSink opts);
            run = exec cmd
        in case runWrites stdoutWriter stderrWriter (writes run)
                  (emptyWriterState, emptyWriterState, w) of
             (rs, (so, se, w')) \<Rightarrow>
               let result = \<lparr>Stdout = buf so, Stderr = buf se\<rparr> in
               (case runErr run of
                  Some err \<Rightarrow>
                    (case ctxErr run of
                       Some cerr \<Rightarrow> ((Some result, Some (ContextDone cerr)), calls so, w')
                     | None \<Rightarrow>
                         ((Some result, Some (YtDlpFailed err (TrimSpace (Stderr result)))),
                          calls so, w'))
                | None \<Rightarrow> ((Some result, None), calls so, w')))"

text \<open>All the bytes written to each stream, and names for the command \<^verbatim>\<open>Download\<close> runs and
  for the results of the writes of a run.\<close>

fun stdoutBytes :: "event list \<Rightarrow> string" where
  "stdoutBytes [] = []"
| "stdoutBytes (StdoutChunk p # es) = p @ stdoutBytes es"
| "stdoutBytes (StderrChunk p # es) = stdoutBytes es"

fun stderrBytes :: "event list \<Rightarrow> string" where
  "stderrBytes [] = []"
| "stderrBytes (StderrChunk p # es) = p @ stderrBytes es"
| "stderrBytes (StdoutChunk p # es) = stderrBytes es"

definition downloadCmd :: "Downloader \<Rightarrow> string \<Rightarrow> 'w Options \<Rightarrow> Cmd" where
  "downloadCmd d url opts = \<lparr>Path = binPath d, Args = buildArgs url opts, Dir = WorkDir opts\<rparr>"

definition downloadWrites ::
  "Downloader \<Rightarrow> (Cmd \<Rightarrow> Run) \<Rightarrow> string \<Rightarrow> 'w Options \<Rightarrow> 'w \<Rightarrow> (int \<times> error option) list" where
  "downloadWrites d exec url opts w =
     fst (runWrites (progressWriter (Progress opts) (StdoutSink opts)) (teeWriter (StderrSink opts))
            (writes (exec (downloadCmd d url opts))) (emptyWriterState, emptyWriterState, w))"

text \<open>
  The arguments as the specification words them: the flags of the options, in the order
  \<^verbatim>\<open>buildArgs\<close> tests them, and for the header map \<open>m\<close> one \<^verbatim>\<open>--add-header\<close> flag for each
  key whose trimmed value is not empty, the keys in increasing order. Strings are ordered
  as Go orders them: byte by byte, a proper prefix first.
\<close>

definition optionArgs :: "'w Options \<Rightarrow> string list" where
  "optionArgs opts =
     [''--newline''] @
     (if Progress opts then [''--progress-template'', progressTemplate] else [''--no-progress'']) @
     (if OutputTemplate opts \<noteq> [] then [''-o'', OutputTemplate opts] else []) @
     (if Format opts \<noteq> [] then [''-f'', Format opts] else []) @
     (if Proxy opts \<noteq> [] then [''--proxy'', Proxy opts] else []) @
     (if CookiesFile opts \<noteq> [] then [''--cookies'', CookiesFile opts] else [])"

definition headerFlags :: "(string \<rightharpoonup> string) \<Rightarrow> string list" where
  "headerFlags m =
     concat (map (\<lambda>k. [''--add-header'', k @ '':'' @ TrimSpace (the (m k))])
       (filter (\<lambda>k. TrimSpace (the (m k)) \<noteq> []) (sorted_list_of_set (dom m))))"

text \<open>Options for the examples: the headers \<^verbatim>\<open>Z\<close>, \<^verbatim>\<open>Empty\<close> (a blank value) and \<^verbatim>\<open>A\<close>, in
  that order and in another.\<close>

definition zaOptions :: "unit Options" where
  "zaOptions =
     \<lparr>OutputTemplate = ''%(title)s.%(ext)s'', Format = [], Proxy = [], CookiesFile = [],
      Headers = [(''Z'', ''1''), (''Empty'', ''  ''), (''A'', '' 2 '')],
      ExtraArgs = [''--no-playlist'', ''-v''], WorkDir = [], StdoutSink = None,
      StderrSink = None, Progress = False\<rparr>"

definition azOptions :: "unit Options" where
  "azOptions = zaOptions\<lparr>Headers := [(''A'', '' 2 ''), (''Z'', ''1''), (''Empty'', ''  '')]\<rparr>"

text \<open>What a write that returns no error leaves of the writer's state: the chunk is
  appended to the buffer and, with a callback, its bytes go through the line decoder.\<close>

definition accumulate :: "bool \<Rightarrow> writerState \<Rightarrow> string \<Rightarrow> writerState" where
  "accumulate callback st p =
     (if callback then foldl lineStep (st\<lparr>buf := buf st @ p\<rparr>) p
      else st\<lparr>buf := buf st @ p\<rparr>)"

text \<open>Sinks for the examples: one that takes every chunk and one that refuses every
  chunk.\<close>

definition okSink :: "unit Writer" where
  "okSink p w = ((int (length p), None), w)"

definition failingSink :: "unit Writer" where
  "failingSink p w = ((0, Some (External ''sink closed'')), w)"

text \<open>Options with no sinks and a progress callback, and three processes: one that writes
  a line and a half to stdout and succeeds, one that writes and exits with an error, and one
  that cannot be launched.\<close>

definition plainOptions :: "unit Options" where
  "plainOptions =
     \<lparr>OutputTemplate = [], Format = [], Proxy = [], CookiesFile = [], Headers = [],
      ExtraArgs = [], WorkDir = [], StdoutSink = None, StderrSink = None, Progress = True\<rparr>"

definition twoLineRun :: "Cmd \<Rightarrow> Run" where
  "twoLineRun cmd = \<lparr>writes = [StdoutChunk ''10%|a|b\<newline>5'', StdoutChunk ''0%|c|d''], runErr = None, ctxErr = None\<rparr>"

definition failedRun :: "Cmd \<Rightarrow> Run" where
  "failedRun cmd =
     \<lparr>writes = [StdoutChunk ''out'', StderrChunk '' boom\<newline>''],
      runErr = Some (External ''exit status 1''), ctxErr = None\<rparr>"

definition launchFailure :: "Cmd \<Rightarrow> Run" where
  "launchFailure cmd =
     \<lparr>writes = [], runErr = Some (External ''fork/exec: no such file''), ctxErr = None\<rparr>"

text \<open>
  What the passthrough sink returned for a chunk decides whether the write-sink goes on to
  the buffer: \<^verbatim>\<open>progressWriter\<close> with a callback looks at the error only, \<^verbatim>\<open>io.MultiWriter\<close>
  (no callback) also refuses a write shorter than the chunk. \<open>writeResult\<close> is what the
  write-sink then returns, and \<open>kept\<close> are the chunks the sink accepted, given what it
  returned for each.
\<close>

definition sinkAccepts :: "bool \<Rightarrow> string \<Rightarrow> int \<times> error option \<Rightarrow> bool" where
  "sinkAccepts callback p r \<longleftrightarrow> snd r = None \<and> (callback \<or> fst r = int (length p))"

definition writeResult :: "bool \<Rightarrow> string \<Rightarrow> int \<times> error option \<Rightarrow> int \<times> error option" where
  "writeResult callback p r =
     (if sinkAccepts callback p r then (int (length p), None)
      else if callback then (0, Some (WritePassthrough (the (snd r))))
      else (fst r, Some (case snd r of Some err \<Rightarrow> err | None \<Rightarrow> ErrShortWrite)))"

definition kept :: "bool \<Rightarrow> string list \<Rightarrow> (int \<times> error option) list \<Rightarrow> string list" where
  "kept callback ps srs = map fst (filter (\<lambda>(p, r). sinkAccepts callback p r) (zip ps srs))"

text \<open>A sink that refuses the chunk \<^verbatim>\<open>b\<close>, writes nothing of the chunk \<^verbatim>\<open>c\<close> without an error,
  and takes every other chunk.\<close>

definition fussySink :: "unit Writer" where
  "fussySink p w =
     (if p = ''b'' then failingSink p w else if p = ''c'' then ((0, None), w) else okSink p w)"

text \<open>Whether an error is one that \<^verbatim>\<open>progressWriter\<close> wrapped as a passthrough-write
  error.\<close>

definition wrapsPassthrough :: "error \<Rightarrow> bool" where
  "wrapsPassthrough e = (case e of WritePassthrough e' \<Rightarrow> True | _ \<Rightarrow> False)"

subsection \<open>White space runes and padded progress lines\<close>







section \<open>The writers: what a write does to the state\<close>

lemma buf_lineStep: "buf (lineStep st b) = buf st"
  by (simp add: lineStep_def Let_def split: prod.splits)

lemma buf_foldl_lineStep: "buf (foldl lineStep st p) = buf st"
  by (induction p arbitrary: st) (simp_all add: buf_lineStep)

lemma lineStep_buf_update: "lineStep (st\<lparr>buf := b\<rparr>) c = (lineStep st c)\<lparr>buf := b\<rparr>"
  by (simp add: lineStep_def Let_def split: prod.splits)

lemma foldl_lineStep_buf_update:
  "foldl lineStep (st\<lparr>buf := b\<rparr>) p = (foldl lineStep st p)\<lparr>buf := b\<rparr>"
  by (induction p arbitrary: st) (simp_all add: lineStep_buf_update)

lemma teeWriter_state:
  "teeWriter extra p (st, w) = (r, (st', w')) \<Longrightarrow>
   st' = (if snd r = None then st\<lparr>buf := buf st @ p\<rparr> else st)"
  by (auto simp: teeWriter_def onBuffer_def onWorld_def bufferWrite_def
           split: option.splits prod.splits if_splits)

lemma progressWriter_state:
  "progressWriter callback extra p (st, w) = (r, (st', w')) \<Longrightarrow>
   st' = (if snd r = None then accumulate callback st p else st)"
  by (cases callback)
     (auto simp: progressWriter_def accumulate_def onBuffer_def onWorld_def bufferWrite_def
           dest: teeWriter_state split: option.splits prod.splits if_splits)

lemma accumulate_append:
  "accumulate callback (accumulate callback st p) q = accumulate callback st (p @ q)"
  by (simp add: accumulate_def foldl_lineStep_buf_update buf_foldl_lineStep)

lemma accumulate_Nil: "accumulate callback st [] = st"
  by (simp add: accumulate_def)

lemma buf_accumulate: "buf (accumulate callback st p) = buf st @ p"
  by (simp add: accumulate_def buf_foldl_lineStep)

lemma writeAll_state:
  "writeAll (progressWriter callback extra) ps (st, w) = (rs, (st', w')) \<Longrightarrow>
   st' = accumulate callback st (concat (accepted ps rs))"
proof (induction ps arbitrary: st w rs st' w')
  case Nil
  then show ?case by (simp add: accepted_def accumulate_Nil)
next
  case (Cons p ps)
  obtain r st1 w1 where w1: "progressWriter callback extra p (st, w) = (r, (st1, w1))"
    by (metis prod.exhaust)
  obtain rs1 st2 w2
    where w2: "writeAll (progressWriter callback extra) ps (st1, w1) = (rs1, (st2, w2))"
    by (metis prod.exhaust)
  from Cons.prems w1 w2 have eq: "rs = r # rs1" "st' = st2" by simp_all
  have "st2 = accumulate callback st1 (concat (accepted ps rs1))" by (rule Cons.IH [OF w2])
  with progressWriter_state [OF w1] eq show ?case
    by (simp add: accepted_def accumulate_append)
qed

lemma writeAll_length: "writeAll wr ps s = (rs, s') \<Longrightarrow> length rs = length ps"
  by (induction ps arbitrary: s rs) (auto split: prod.splits)

lemma accepted_all:
  "length rs = length ps \<Longrightarrow> list_all (\<lambda>r. snd r = None) rs \<Longrightarrow> accepted ps rs = ps"
  by (induction ps rs rule: list_induct2') (simp_all add: accepted_def)

lemma progressWriter_no_sink:
  "progressWriter callback None p (st, w) = (r, s') \<Longrightarrow> snd r = None"
  by (cases callback)
     (auto simp: progressWriter_def teeWriter_def onBuffer_def bufferWrite_def
           split: prod.splits)

lemma writeAll_no_sink:
  "writeAll (progressWriter callback None) ps (st, w) = (rs, s') \<Longrightarrow>
   list_all (\<lambda>r. snd r = None) rs"
proof (induction ps arbitrary: st w rs s')
  case Nil
  then show ?case by simp
next
  case (Cons p ps)
  obtain r st1 w1 where w1: "progressWriter callback None p (st, w) = (r, (st1, w1))"
    by (metis prod.exhaust)
  obtain rs1 s2 where w2: "writeAll (progressWriter callback None) ps (st1, w1) = (rs1, s2)"
    by (metis prod.exhaust)
  from Cons.prems w1 w2 have "rs = r # rs1" by simp
  with progressWriter_no_sink [OF w1] Cons.IH [OF w2] show ?case by simp
qed

lemma teeWriter_progressWriter: "teeWriter extra = progressWriter False extra"
  by (simp add: progressWriter_def)

lemma progressWriter_with_sink:
  assumes "ex p w = (sr, w1)"
  shows "progressWriter callback (Some ex) p (st, w) =
           (writeResult callback p sr,
            (if sinkAccepts callback p sr then accumulate callback st p else st, w1))"
proof (cases callback)
  case True
  with assms show ?thesis
    by (cases sr; cases "snd sr")
       (simp_all add: progressWriter_def onWorld_def onBuffer_def bufferWrite_def
          writeResult_def sinkAccepts_def accumulate_def)
next
  case False
  with assms show ?thesis
    by (cases sr; cases "snd sr")
       (simp_all add: progressWriter_def teeWriter_def onWorld_def onBuffer_def bufferWrite_def
          writeResult_def sinkAccepts_def accumulate_def)
qed

lemma writeAll_with_sink:
  "writeAll ex ps w = (srs, w1) \<Longrightarrow>
   writeAll (progressWriter callback (Some ex)) ps (st, w) =
     (map2 (writeResult callback) ps srs,
      (accumulate callback st (concat (kept callback ps srs)), w1))"
proof (induction ps arbitrary: st w srs w1)
  case Nil
  then show ?case by (simp add: kept_def accumulate_Nil)
next
  case (Cons p ps)
  obtain sr w2 where a: "ex p w = (sr, w2)" by (metis prod.exhaust)
  obtain srs' w3 where b: "writeAll ex ps w2 = (srs', w3)" by (metis prod.exhaust)
  from Cons.prems a b have eq: "srs = sr # srs'" "w1 = w3" by simp_all
  note step = progressWriter_with_sink
    [where ex = ex and p = p and w = w and callback = callback and st = st, OF a]
  show ?case
    by (simp add: step eq Cons.IH [OF b] kept_def accumulate_append)
qed

lemma progressWriter_without_sink:
  "progressWriter callback None p (st, w) = ((int (length p), None), (accumulate callback st p, w))"
  by (cases callback)
     (simp_all add: progressWriter_def teeWriter_def onBuffer_def bufferWrite_def accumulate_def)

lemma writeAll_without_sink:
  "writeAll (progressWriter callback None) ps (st, w) =
     (map (\<lambda>p. (int (length p), None)) ps, (accumulate callback st (concat ps), w))"
  by (induction ps arbitrary: st)
     (simp_all add: progressWriter_without_sink accumulate_Nil accumulate_append)

text \<open>Unfolding rules for running the definitions on concrete inputs.\<close>

lemmas writer_eval = progressWriter_def teeWriter_def onBuffer_def onWorld_def bufferWrite_def
  okSink_def failingSink_def emptyWriterState_def accepted_def

lemmas trim_eval = TrimLeft.simps TrimRight.simps TrimSpace_def spaceWidth_def
  spaceWidthRight_def asciiSpace_def spaces2_def spaces3_def TrimSuffix_def

lemmas line_eval = lineStep_def parseProgress_def progressPartsCount_def rawOnly_def Let_def

lemmas sink_eval = writer_eval fussySink_def kept_def sinkAccepts_def writeResult_def
  lineStep_def Let_def

section \<open>\<^verbatim>\<open>Download\<close>: what a run leaves\<close>

lemma runWrites_state:
  "runWrites (progressWriter callback extra) (teeWriter extra') es (so, se, w) = (rs, (so', se', w')) \<Longrightarrow>
   so' = accumulate callback so (stdoutAccepted es rs) \<and>
   se' = accumulate False se (stderrAccepted es rs)"
proof (induction es arbitrary: so se w rs so' se' w')
  case Nil
  then show ?case by (simp add: accumulate_Nil)
next
  case (Cons e es)
  show ?case
  proof (cases e)
    case (StdoutChunk p)
    obtain r so1 w1 where w1: "progressWriter callback extra p (so, w) = (r, (so1, w1))"
      by (metis prod.exhaust)
    obtain rs1 so2 se2 w2 where w2:
      "runWrites (progressWriter callback extra) (teeWriter extra') es (so1, se, w1) = (rs1, (so2, se2, w2))"
      by (metis prod.exhaust)
    from Cons.prems StdoutChunk w1 w2 have eq: "rs = r # rs1" "so' = so2" "se' = se2" by simp_all
    from Cons.IH [OF w2] progressWriter_state [OF w1] eq StdoutChunk show ?thesis
      by (simp add: accumulate_append)
  next
    case (StderrChunk p)
    obtain r se1 w1 where w1: "progressWriter False extra' p (se, w) = (r, (se1, w1))"
      by (metis prod.exhaust)
    obtain rs1 so2 se2 w2 where w2:
      "runWrites (progressWriter callback extra) (teeWriter extra') es (so, se1, w1) = (rs1, (so2, se2, w2))"
      by (metis prod.exhaust)
    from Cons.prems StderrChunk w1 w2 have eq: "rs = r # rs1" "so' = so2" "se' = se2"
      by (simp_all add: teeWriter_progressWriter)
    from Cons.IH [OF w2] progressWriter_state [OF w1] eq StderrChunk show ?thesis
      by (simp add: accumulate_append)
  qed
qed

lemma runWrites_no_sinks:
  "runWrites (progressWriter callback None) (teeWriter None) es (so, se, w) = (rs, s') \<Longrightarrow>
   stdoutAccepted es rs = stdoutBytes es \<and> stderrAccepted es rs = stderrBytes es"
proof (induction es arbitrary: so se w rs s')
  case Nil
  then show ?case by simp
next
  case (Cons e es)
  show ?case
  proof (cases e)
    case (StdoutChunk p)
    obtain r so1 w1 where w1: "progressWriter callback None p (so, w) = (r, (so1, w1))"
      by (metis prod.exhaust)
    obtain rs1 s2 where w2:
      "runWrites (progressWriter callback None) (teeWriter None) es (so1, se, w1) = (rs1, s2)"
      by (metis prod.exhaust)
    from Cons.prems StdoutChunk w1 w2 have eq: "rs = r # rs1" by simp
    from Cons.IH [OF w2] progressWriter_no_sink [OF w1] eq StdoutChunk show ?thesis by simp
  next
    case (StderrChunk p)
    obtain r se1 w1 where w1: "progressWriter False None p (se, w) = (r, (se1, w1))"
      by (metis prod.exhaust)
    obtain rs1 s2 where w2:
      "runWrites (progressWriter callback None) (teeWriter None) es (so, se1, w1) = (rs1, s2)"
      by (metis prod.exhaust)
    from Cons.prems StderrChunk w1 w2 have eq: "rs = r # rs1"
      by (simp add: teeWriter_progressWriter)
    from Cons.IH [OF w2] progressWriter_no_sink [OF w1] eq StderrChunk show ?thesis by simp
  qed
qed

lemma Download_run:
  assumes "url \<noteq> []" "binPath d \<noteq> []"
  shows "Download d exec url opts w =
     (let run = exec (downloadCmd d url opts);
          rs = downloadWrites d exec url opts w;
          result = \<lparr>Stdout = stdoutAccepted (writes run) rs, Stderr = stderrAccepted (writes run) rs\<rparr>;
          so = accumulate (Progress opts) emptyWriterState (stdoutAccepted (writes run) rs);
          w' = snd (snd (snd (runWrites (progressWriter (Progress opts) (StdoutSink opts)) (teeWriter (StderrSink opts))
            (writes run) (emptyWriterState, emptyWriterState, w))))
      in (case runErr run of
            Some err \<Rightarrow>
              (case ctxErr run of
                 Some cerr \<Rightarrow> ((Some result, Some (ContextDone cerr)), calls so, w')
               | None \<Rightarrow> ((Some result, Some (YtDlpFailed err (TrimSpace (Stderr result)))), calls so, w'))
          | None \<Rightarrow> ((Some result, None), calls so, w')))"
proof -
  obtain rs so se w' where r: "runWrites (progressWriter (Progress opts) (StdoutSink opts)) (teeWriter (StderrSink opts))
            (writes (exec (downloadCmd d url opts))) (emptyWriterState, emptyWriterState, w) = (rs, (so, se, w'))"
    by (metis prod.exhaust)
  from runWrites_state [OF r] r assms show ?thesis
    by (simp add: Download_def downloadWrites_def downloadCmd_def Let_def buf_accumulate emptyWriterState_def
             split: option.splits)
qed

lemma foldl_lineStep_no_newline:
  "CHR 0x0A \<notin> set t \<Longrightarrow> foldl lineStep st t = st\<lparr>lineBuf := lineBuf st @ t\<rparr>"
  by (induction t arbitrary: st) (auto simp: lineStep_def Let_def)

lemma accumulate_partial_line:
  assumes "CHR 0x0A \<notin> set t"
  shows "calls (accumulate True st (s @ t)) = calls (foldl lineStep st s) \<and>
         lineBuf (accumulate True st (s @ t)) = lineBuf (foldl lineStep st s) @ t"
  using assms by (simp add: accumulate_def foldl_lineStep_buf_update foldl_lineStep_no_newline)

text \<open>Unfolding rules and values of \<^verbatim>\<open>ParseFloat\<close> for the examples.\<close>

lemmas float_eval = ParseFloat_def special_def infinityLen_def readFloat_def readFloatResult_def
  readSign_def readBasePrefix_def readExponent_def
  scan0_def isDigit_def digitVal_def lower_def isHexLetter_def hexVal_def toLower_def
  nearestFloat64_def floorLog2_def roundHalfEven_def bit_length.simps underscoreOK_def Let_def


lemma ParseFloat_150: "ParseFloat ''150'' = Inr (Finite False 150)"
  by (simp add: float_eval)


lemma ParseFloat_10: "ParseFloat ''10'' = Inr (Finite False 10)"
  by (simp add: float_eval)

lemma ParseFloat_minus_5: "ParseFloat ''-5'' = Inr (Finite True 5)"
  by (simp add: float_eval)

lemma ParseFloat_inf: "ParseFloat ''inf'' = Inr (Infinity False)"
  by (simp add: float_eval)

lemma ParseFloat_tenth: "ParseFloat ''0.1'' = Inr (Finite False (3602879701896397 / 36028797018963968))"
  by (simp add: float_eval)

lemma twoLine_writes: "writeAll (progressWriter True None) [''10%|a|b\<newline>5'', ''0%|c|d''] (emptyWriterState, ()) =
     ([(9, None), (6, None)],
      (\<lparr>buf = ''10%|a|b\<newline>50%|c|d'', lineBuf = ''50%|c|d'',
        calls = [\<lparr>Percent = Finite False 10, ETA = ''a'', Speed = ''b'', Raw = ''10%|a|b''\<rparr>]\<rparr>, ()))"
  by (simp add: writer_eval line_eval trim_eval EqualFold_def ParseFloat_10 toLower_def)

lemma twoLine_decoded: "foldl lineStep emptyWriterState ''10%|a|b\<newline>'' = 
  \<lparr>buf = [], lineBuf = [],
        calls = [\<lparr>Percent = Finite False 10, ETA = ''a'', Speed = ''b'', Raw = ''10%|a|b''\<rparr>]\<rparr>"
  by (simp add: writer_eval line_eval trim_eval EqualFold_def ParseFloat_10 toLower_def)

lemma twoLine_Download: "Download \<lparr>binPath = ''yt-dlp''\<rparr> twoLineRun ''u'' plainOptions () =
   ((Some \<lparr>Stdout = ''10%|a|b\<newline>50%|c|d'', Stderr = []\<rparr>, None), 
    [\<lparr>Percent = Finite False 10, ETA = ''a'', Speed = ''b'', Raw = ''10%|a|b''\<rparr>], ())"
  by (simp add: Download_def twoLineRun_def plainOptions_def writer_eval line_eval trim_eval EqualFold_def ParseFloat_10 toLower_def)

lemma twoLine_downloadWrites: "downloadWrites \<lparr>binPath = ''yt-dlp''\<rparr> twoLineRun ''u'' plainOptions () = [(9, None), (6, None)]"
  by (simp add: downloadWrites_def twoLineRun_def plainOptions_def writer_eval line_eval trim_eval EqualFold_def ParseFloat_10 toLower_def)

section \<open>The arguments\<close>

lemma addHeaders_flags:
  "set keys \<subseteq> dom (map_of hs) \<Longrightarrow>
   addHeaders hs keys args =
     args @ concat (map (\<lambda>k. [''--add-header'', k @ '':'' @ TrimSpace (the (map_of hs k))])
       (filter (\<lambda>k. TrimSpace (the (map_of hs k)) \<noteq> []) keys))"
proof (induction keys arbitrary: args)
  case Nil
  then show ?case by simp
next
  case (Cons k keys)
  then obtain v where v: "map_of hs k = Some v" by auto
  from Cons show ?case by (simp add: v Let_def)
qed

lemma sorted_keys:
  "distinct (map fst hs) \<Longrightarrow> sort (map fst hs) = sorted_list_of_set (dom (map_of hs))"
  by (simp add: dom_map_of_conv_image_fst sorted_list_of_set_sort_remdups distinct_remdups_id
        flip: set_map)

subsection \<open>Trimming white space runes\<close>


















lemma Split_nonempty: "Split s sep \<noteq> []"
  by (induction s) (auto split: list.splits)









subsection \<open>No number contains a percent sign\<close>
















subsection \<open>Decoding a padded progress line\<close>







section \<open>The accumulation buffer\<close>

text \<open>
  Claim C1, as the code has it. After any sequence of writes to the write-sink of a
  stream (\<^verbatim>\<open>progressWriter\<close> for stdout; for stderr \<^verbatim>\<open>teeWriter\<close>, which is
  \<^verbatim>\<open>progressWriter\<close> without a callback) the accumulation buffer holds what it held before
  followed by the chunks whose write returned no error, in the order they arrived, and
  nothing of the other chunks. With no passthrough sink these are all the chunks, and every
  write succeeds. With a passthrough sink they are the chunks the sink accepted: with a
  callback those for which it returned no error, without one those for which it returned
  no error and the full length of the chunk; a write succeeds exactly for these chunks, and
  the sink is left as the same writes made to it directly leave it.
\<close>

theorem buffer_is_concat_of_accepted_chunks:
  assumes "writeAll (progressWriter callback extra) ps (st, w) = (rs, (st', w'))"
  shows "buf st' = buf st @ concat (accepted ps rs) \<and>
         (extra = None \<longrightarrow>
            buf st' = buf st @ concat ps \<and> rs = map (\<lambda>p. (int (length p), None)) ps \<and> w' = w) \<and>
         (extra = Some ex \<and> writeAll ex ps w = (srs, wsink) \<longrightarrow>
            buf st' = buf st @ concat (kept callback ps srs) \<and>
            rs = map2 (writeResult callback) ps srs \<and> w' = wsink)"
proof (intro conjI impI)
  have "st' = accumulate callback st (concat (accepted ps rs))"
    by (rule writeAll_state [OF assms])
  then show "buf st' = buf st @ concat (accepted ps rs)" by (simp add: buf_accumulate)
next
  assume "extra = None"
  with assms have run: "writeAll (progressWriter callback None) ps (st, w) = (rs, (st', w'))"
    by simp
  have e: "rs = map (\<lambda>p. (int (length p), None)) ps"
    "st' = accumulate callback st (concat ps)" "w' = w"
    using run by (simp_all add: writeAll_without_sink)
  from e show "buf st' = buf st @ concat ps" by (simp add: buf_accumulate)
  from e show "rs = map (\<lambda>p. (int (length p), None)) ps" by simp
  from e show "w' = w" by simp
next
  assume h: "extra = Some ex \<and> writeAll ex ps w = (srs, wsink)"
  then have "writeAll ex ps w = (srs, wsink)" by simp
  note full = writeAll_with_sink [OF this, of callback st]
  from assms h have run: "writeAll (progressWriter callback (Some ex)) ps (st, w) = (rs, (st', w'))"
    by simp
  have e: "rs = map2 (writeResult callback) ps srs"
    "st' = accumulate callback st (concat (kept callback ps srs))" "w' = wsink"
    using run by (simp_all add: full)
  from e show "buf st' = buf st @ concat (kept callback ps srs)" by (simp add: buf_accumulate)
  from e show "rs = map2 (writeResult callback) ps srs" by simp
  from e show "w' = wsink" by simp
qed

text \<open>Four chunks through a sink that refuses the second and writes nothing of the third,
  with a callback and without one, and through no sink.\<close>

theorem buffer_is_concat_of_accepted_chunks_witness:
  "writeAll fussySink [''a'', ''b'', ''c'', ''d''] () =
     ([(1, None), (0, Some (External ''sink closed'')), (0, None), (1, None)], ()) \<and>
   writeAll (progressWriter True (Some fussySink)) [''a'', ''b'', ''c'', ''d'']
       (emptyWriterState, ()) =
     ([(1, None), (0, Some (WritePassthrough (External ''sink closed''))), (1, None), (1, None)],
      (\<lparr>buf = ''acd'', lineBuf = ''acd'', calls = []\<rparr>, ())) \<and>
   kept True [''a'', ''b'', ''c'', ''d'']
     [(1, None), (0, Some (External ''sink closed'')), (0, None), (1, None)] =
     [''a'', ''c'', ''d''] \<and>
   writeAll (progressWriter False (Some fussySink)) [''a'', ''b'', ''c'', ''d'']
       (emptyWriterState, ()) =
     ([(1, None), (0, Some (External ''sink closed'')), (0, Some ErrShortWrite), (1, None)],
      (\<lparr>buf = ''ad'', lineBuf = [], calls = []\<rparr>, ())) \<and>
   kept False [''a'', ''b'', ''c'', ''d'']
     [(1, None), (0, Some (External ''sink closed'')), (0, None), (1, None)] =
     [''a'', ''d''] \<and>
   writeAll (progressWriter False None) [''a'', ''b'', ''c'', ''d''] (emptyWriterState, ()) =
     ([(1, None), (1, None), (1, None), (1, None)],
      (\<lparr>buf = ''abcd'', lineBuf = [], calls = []\<rparr>, ())) \<and>
   buf \<lparr>buf = ''acd'', lineBuf = ''acd'', calls = []\<rparr> =
     buf emptyWriterState @ concat (kept True [''a'', ''b'', ''c'', ''d'']
       [(1, None), (0, Some (External ''sink closed'')), (0, None), (1, None)]) \<and>
   buf \<lparr>buf = ''ad'', lineBuf = [], calls = []\<rparr> =
     buf emptyWriterState @ concat (kept False [''a'', ''b'', ''c'', ''d'']
       [(1, None), (0, Some (External ''sink closed'')), (0, None), (1, None)]) \<and>
   buf \<lparr>buf = ''abcd'', lineBuf = [], calls = []\<rparr> =
     buf emptyWriterState @ concat [''a'', ''b'', ''c'', ''d'']"
proof -
  have sink: "writeAll fussySink [''a'', ''b'', ''c'', ''d''] () =
     ([(1, None), (0, Some (External ''sink closed'')), (0, None), (1, None)], ())"
    by (simp add: sink_eval)
  have cb: "writeAll (progressWriter True (Some fussySink)) [''a'', ''b'', ''c'', ''d'']
       (emptyWriterState, ()) =
     ([(1, None), (0, Some (WritePassthrough (External ''sink closed''))), (1, None), (1, None)],
      (\<lparr>buf = ''acd'', lineBuf = ''acd'', calls = []\<rparr>, ()))"
    by (simp add: sink_eval)
  have tee: "writeAll (progressWriter False (Some fussySink)) [''a'', ''b'', ''c'', ''d'']
       (emptyWriterState, ()) =
     ([(1, None), (0, Some (External ''sink closed'')), (0, Some ErrShortWrite), (1, None)],
      (\<lparr>buf = ''ad'', lineBuf = [], calls = []\<rparr>, ()))"
    by (simp add: sink_eval)
  have none: "writeAll (progressWriter False (None :: unit Writer option))
       [''a'', ''b'', ''c'', ''d''] (emptyWriterState, ()) =
     ([(1, None), (1, None), (1, None), (1, None)],
      (\<lparr>buf = ''abcd'', lineBuf = [], calls = []\<rparr>, ()))"
    by (simp add: sink_eval)
  have k1: "kept True [''a'', ''b'', ''c'', ''d'']
     [(1, None), (0, Some (External ''sink closed'')), (0, None), (1, None)] = [''a'', ''c'', ''d'']"
    by (simp add: sink_eval)
  have k2: "kept False [''a'', ''b'', ''c'', ''d'']
     [(1, None), (0, Some (External ''sink closed'')), (0, None), (1, None)] = [''a'', ''d'']"
    by (simp add: sink_eval)
  note b1 = buffer_is_concat_of_accepted_chunks
    [OF cb, where ex = fussySink and wsink = "()"
       and srs = "[(1, None), (0, Some (External ''sink closed'')), (0, None), (1, None)]",
     THEN conjunct2, THEN conjunct2, THEN mp, OF conjI [OF refl sink], THEN conjunct1]
  note b2 = buffer_is_concat_of_accepted_chunks
    [OF tee, where ex = fussySink and wsink = "()"
       and srs = "[(1, None), (0, Some (External ''sink closed'')), (0, None), (1, None)]",
     THEN conjunct2, THEN conjunct2, THEN mp, OF conjI [OF refl sink], THEN conjunct1]
  note b3 = buffer_is_concat_of_accepted_chunks
    [OF none, THEN conjunct2, THEN conjunct1, THEN mp, OF refl, THEN conjunct1]
  show ?thesis by (intro conjI sink cb tee none k1 k2 b1 b2 b3)
qed

text \<open>The claim as the specification words it (every chunk written is in the buffer,
  whether or not the sink's write errored) fails: a chunk the sink refuses is written to
  the write-sink and is not in the buffer, for both writers.\<close>

theorem buffer_misses_refused_chunk:
  "buf (fst (snd (writeAll (teeWriter (Some failingSink)) [''a'']
      (emptyWriterState, ())))) \<noteq> concat [''a''] \<and>
   buf (fst (snd (writeAll (progressWriter True (Some failingSink)) [''a'']
      (emptyWriterState, ())))) \<noteq> concat [''a'']"
  by (simp add: writer_eval)

text \<open>
  Claim C2, as the code has it. When the passthrough sink returns an error for a chunk, the
  write fails and the writer's state is left as it was: nothing of the chunk is appended to
  the buffer (nor to the pending line, and no callback is called). With a progress callback
  the error returned is the sink's, wrapped as a passthrough-write error
  (\<^verbatim>\<open>write passthrough\<close>); without one (\<^verbatim>\<open>teeWriter\<close>: always for stderr, and for stdout with
  no callback) it is the sink's own error, not wrapped, as \<^verbatim>\<open>io.MultiWriter\<close> returns it.
\<close>

theorem passthrough_error_fails_write_unaccumulated:
  assumes "ex chunk w = ((n, Some err), w')"
  shows "progressWriter True (Some ex) chunk (st, w) =
           ((0, Some (WritePassthrough err)), (st, w')) \<and>
         progressWriter False (Some ex) chunk (st, w) = ((n, Some err), (st, w')) \<and>
         teeWriter (Some ex) chunk (st, w) = ((n, Some err), (st, w'))"
  using assms by (simp add: progressWriter_def teeWriter_def onWorld_def)

theorem passthrough_error_fails_write_unaccumulated_witness:
  "failingSink ''abc'' () = ((0, Some (External ''sink closed'')), ()) \<and>
   progressWriter True (Some failingSink) ''abc''
       (\<lparr>buf = ''xy'', lineBuf = ''y'', calls = []\<rparr>, ()) =
     ((0, Some (WritePassthrough (External ''sink closed''))),
      (\<lparr>buf = ''xy'', lineBuf = ''y'', calls = []\<rparr>, ())) \<and>
   teeWriter (Some failingSink) ''abc'' (\<lparr>buf = ''xy'', lineBuf = ''y'', calls = []\<rparr>, ()) =
     ((0, Some (External ''sink closed'')),
      (\<lparr>buf = ''xy'', lineBuf = ''y'', calls = []\<rparr>, ()))"
proof -
  have h: "failingSink ''abc'' () = ((0, Some (External ''sink closed'')), ())"
    by (simp add: failingSink_def)
  from passthrough_error_fails_write_unaccumulated
         [of failingSink "''abc''" "()" 0 "External ''sink closed''" "()"
            "\<lparr>buf = ''xy'', lineBuf = ''y'', calls = []\<rparr>", OF h] h
  show ?thesis by simp
qed

text \<open>The claim as the specification words it (the write of every stream fails with a
  passthrough-write error) fails on the path without a callback: the error of the write is
  the sink's own.\<close>

theorem tee_error_is_not_wrapped:
  "snd (fst (teeWriter (Some failingSink) ''abc'' (emptyWriterState, ()))) =
     Some (External ''sink closed'') \<and>
   snd (fst (progressWriter False (Some failingSink) ''abc'' (emptyWriterState, ()))) =
     Some (External ''sink closed'') \<and>
   \<not> wrapsPassthrough (External ''sink closed'')"
  by (simp add: writer_eval wrapsPassthrough_def)

text \<open>
  Claim C3. Two segmentations of the same bytes into chunks, written to the stdout
  write-sink from the same state with every write succeeding, leave the same buffer: what
  it held before followed by the bytes. The pending line and the calls of the callback
  are the same as well. The sinks of the two runs may differ.
\<close>

theorem chunking_does_not_change_buffer:
  assumes "concat ps = concat qs"
    and "writeAll (progressWriter callback extra) ps (st, w) = (rs, (st1, w1))"
    and "writeAll (progressWriter callback extra') qs (st, v) = (rs', (st2, v2))"
    and "list_all (\<lambda>r. snd r = None) rs"
    and "list_all (\<lambda>r. snd r = None) rs'"
  shows "buf st1 = buf st2 \<and> buf st1 = buf st @ concat ps \<and> st1 = st2"
proof -
  have a1: "accepted ps rs = ps"
    using assms(2,4) by (simp add: accepted_all writeAll_length)
  have a2: "accepted qs rs' = qs"
    using assms(3,5) by (simp add: accepted_all writeAll_length)
  from writeAll_state [OF assms(2)] writeAll_state [OF assms(3)] a1 a2 assms(1)
  show ?thesis by (simp add: buf_accumulate)
qed

theorem chunking_does_not_change_buffer_witness:
  "concat [''a'', ''b\<newline>c''] = concat [''ab\<newline>'', ''c''] \<and>
   writeAll (progressWriter True None) [''a'', ''b\<newline>c''] (emptyWriterState, ()) =
     ([(1, None), (3, None)], (\<lparr>buf = ''ab\<newline>c'', lineBuf = ''c'', calls = []\<rparr>, ())) \<and>
   writeAll (progressWriter True (Some okSink)) [''ab\<newline>'', ''c''] (emptyWriterState, ()) =
     ([(3, None), (1, None)], (\<lparr>buf = ''ab\<newline>c'', lineBuf = ''c'', calls = []\<rparr>, ())) \<and>
   list_all (\<lambda>r. snd r = None) [(1::int, None :: error option), (3, None)] \<and>
   list_all (\<lambda>r. snd r = None) [(3::int, None :: error option), (1, None)] \<and>
   buf \<lparr>buf = ''ab\<newline>c'', lineBuf = ''c'', calls = []\<rparr> =
     buf emptyWriterState @ concat [''a'', ''b\<newline>c'']"
proof -
  have c: "concat [''a'', ''b\<newline>c''] = concat [''ab\<newline>'', ''c'']" by simp
  have r1: "writeAll (progressWriter True None) [''a'', ''b\<newline>c''] (emptyWriterState, ()) =
     ([(1, None), (3, None)], (\<lparr>buf = ''ab\<newline>c'', lineBuf = ''c'', calls = []\<rparr>, ()))"
    by (simp add: writer_eval line_eval trim_eval)
  have r2: "writeAll (progressWriter True (Some okSink)) [''ab\<newline>'', ''c'']
       (emptyWriterState, ()) =
     ([(3, None), (1, None)], (\<lparr>buf = ''ab\<newline>c'', lineBuf = ''c'', calls = []\<rparr>, ()))"
    by (simp add: writer_eval line_eval trim_eval)
  have l1: "list_all (\<lambda>r. snd r = None) [(1::int, None :: error option), (3, None)]" by simp
  have l2: "list_all (\<lambda>r. snd r = None) [(3::int, None :: error option), (1, None)]" by simp
  from chunking_does_not_change_buffer [OF c r1 r2 l1 l2] c r1 r2 show ?thesis by simp
qed

section \<open>The pending line\<close>

text \<open>
  Claim C6. When the bytes a stdout write-sink with a callback has accepted end in a
  partial line \<open>t\<close> (no line feed in it), the callback has been called exactly as for the
  bytes before \<open>t\<close>, and \<open>t\<close> is still pending in \<^verbatim>\<open>lineBuf\<close>: it has not been decoded. When
  the process ends \<^verbatim>\<open>Download\<close> flushes nothing: the calls it made are those for the
  bytes before \<open>t\<close>.
\<close>

theorem partial_line_never_delivered:
  assumes "CHR 0x0A \<notin> set t"
  shows "(writeAll (progressWriter True extra) ps (st, v) = (rs, (st', v')) \<and>
            concat (accepted ps rs) = s @ t \<longrightarrow>
          calls st' = calls (foldl lineStep st s) \<and>
          lineBuf st' = lineBuf (foldl lineStep st s) @ t) \<and>
         (url \<noteq> [] \<and> binPath d \<noteq> [] \<and> Progress opts \<and>
            stdoutAccepted (writes (exec (downloadCmd d url opts)))
              (downloadWrites d exec url opts w) = s @ t \<longrightarrow>
          fst (snd (Download d exec url opts w)) = calls (foldl lineStep emptyWriterState s))"
proof (intro conjI impI)
  assume h: "writeAll (progressWriter True extra) ps (st, v) = (rs, (st', v')) \<and>
    concat (accepted ps rs) = s @ t"
  then have "st' = accumulate True st (s @ t)" using writeAll_state [of True extra ps st v rs st' v'] by simp
  with accumulate_partial_line [OF assms]
  show "calls st' = calls (foldl lineStep st s)"
    and "lineBuf st' = lineBuf (foldl lineStep st s) @ t" by simp_all
next
  assume h: "url \<noteq> [] \<and> binPath d \<noteq> [] \<and> Progress opts \<and>
            stdoutAccepted (writes (exec (downloadCmd d url opts)))
              (downloadWrites d exec url opts w) = s @ t"
  then have "fst (snd (Download d exec url opts w)) = calls (accumulate True emptyWriterState (s @ t))"
    by (simp add: Download_run Let_def split: option.splits)
  with accumulate_partial_line [OF assms] show "fst (snd (Download d exec url opts w)) = calls (foldl lineStep emptyWriterState s)"
    by simp
qed

theorem partial_line_never_delivered_witness:
  "CHR 0x0A \<notin> set ''50%|c|d'' \<and>
   writeAll (progressWriter True None) [''10%|a|b\<newline>5'', ''0%|c|d''] (emptyWriterState, ()) =
     ([(9, None), (6, None)],
      (\<lparr>buf = ''10%|a|b\<newline>50%|c|d'', lineBuf = ''50%|c|d'',
        calls = [\<lparr>Percent = Finite False 10, ETA = ''a'', Speed = ''b'', Raw = ''10%|a|b''\<rparr>]\<rparr>, ())) \<and>
   concat (accepted [''10%|a|b\<newline>5'', ''0%|c|d''] [(9, None), (6, None)]) = ''10%|a|b\<newline>'' @ ''50%|c|d'' \<and>
   calls (foldl lineStep emptyWriterState ''10%|a|b\<newline>'') =
     [\<lparr>Percent = Finite False 10, ETA = ''a'', Speed = ''b'', Raw = ''10%|a|b''\<rparr>] \<and>
   stdoutAccepted (writes (twoLineRun (downloadCmd \<lparr>binPath = ''yt-dlp''\<rparr> ''u'' plainOptions)))
     (downloadWrites \<lparr>binPath = ''yt-dlp''\<rparr> twoLineRun ''u'' plainOptions ()) = ''10%|a|b\<newline>'' @ ''50%|c|d'' \<and>
   fst (snd (Download \<lparr>binPath = ''yt-dlp''\<rparr> twoLineRun ''u'' plainOptions ())) =
     calls (foldl lineStep emptyWriterState ''10%|a|b\<newline>'')"
proof -
  have nl: "CHR 0x0A \<notin> set ''50%|c|d''" by simp
  have acc: "concat (accepted [''10%|a|b\<newline>5'', ''0%|c|d''] [(9, None), (6, None)]) = ''10%|a|b\<newline>'' @ ''50%|c|d''"
    by (simp add: accepted_def)
  have out: "stdoutAccepted (writes (twoLineRun (downloadCmd \<lparr>binPath = ''yt-dlp''\<rparr> ''u'' plainOptions)))
     (downloadWrites \<lparr>binPath = ''yt-dlp''\<rparr> twoLineRun ''u'' plainOptions ()) = ''10%|a|b\<newline>'' @ ''50%|c|d''"
    by (simp add: twoLine_downloadWrites) (simp add: twoLineRun_def)
  have opts: "Progress plainOptions" by (simp add: plainOptions_def)
  from partial_line_never_delivered [OF nl, of None "[''10%|a|b\<newline>5'', ''0%|c|d'']" emptyWriterState "()"
     "[(9, None), (6, None)]" _ "()" "''10%|a|b\<newline>''" "''u''" "\<lparr>binPath = ''yt-dlp''\<rparr>" plainOptions twoLineRun "()"]
    twoLine_writes acc out opts nl twoLine_decoded
  show ?thesis by simp
qed

section \<open>\<^verbatim>\<open>Download\<close>: results and errors\<close>

text \<open>
  Claim C9. With a URL and a binary path, when \<^verbatim>\<open>cmd.Run()\<close> returns an error (the process
  could not be launched, or it failed) \<^verbatim>\<open>Download\<close> returns a result with the error: its
  \<^verbatim>\<open>Stdout\<close> and \<^verbatim>\<open>Stderr\<close> are the bytes of the chunks the two write-sinks accepted (with no
  passthrough sinks, all the bytes the process wrote), and the error is the context's when
  the context is done, and otherwise the process's with the trimmed \<^verbatim>\<open>Stderr\<close>.
\<close>

theorem failed_run_returns_captured_output:
  assumes "url \<noteq> []" and "binPath d \<noteq> []"
    and "runErr (exec (downloadCmd d url opts)) = Some err"
  shows "fst (Download d exec url opts w) =
           (Some \<lparr>Stdout = stdoutAccepted (writes (exec (downloadCmd d url opts)))
                              (downloadWrites d exec url opts w),
                   Stderr = stderrAccepted (writes (exec (downloadCmd d url opts)))
                              (downloadWrites d exec url opts w)\<rparr>,
            Some (case ctxErr (exec (downloadCmd d url opts)) of
                    Some cerr \<Rightarrow> ContextDone cerr
                  | None \<Rightarrow>
                      YtDlpFailed err
                        (TrimSpace (stderrAccepted (writes (exec (downloadCmd d url opts)))
                           (downloadWrites d exec url opts w))))) \<and>
         (StdoutSink opts = None \<and> StderrSink opts = None \<longrightarrow>
            stdoutAccepted (writes (exec (downloadCmd d url opts)))
              (downloadWrites d exec url opts w) = stdoutBytes (writes (exec (downloadCmd d url opts))) \<and>
            stderrAccepted (writes (exec (downloadCmd d url opts)))
              (downloadWrites d exec url opts w) = stderrBytes (writes (exec (downloadCmd d url opts))))"
proof (intro conjI impI)
  show "fst (Download d exec url opts w) =
           (Some \<lparr>Stdout = stdoutAccepted (writes (exec (downloadCmd d url opts)))
                              (downloadWrites d exec url opts w),
                   Stderr = stderrAccepted (writes (exec (downloadCmd d url opts)))
                              (downloadWrites d exec url opts w)\<rparr>,
            Some (case ctxErr (exec (downloadCmd d url opts)) of
                    Some cerr \<Rightarrow> ContextDone cerr
                  | None \<Rightarrow>
                      YtDlpFailed err
                        (TrimSpace (stderrAccepted (writes (exec (downloadCmd d url opts)))
                           (downloadWrites d exec url opts w)))))"
    using assms by (simp add: Download_run Let_def split: option.splits)
next
  assume ns: "StdoutSink opts = None \<and> StderrSink opts = None"
  obtain rs s' where r: "runWrites (progressWriter (Progress opts) None) (teeWriter None)
            (writes (exec (downloadCmd d url opts))) (emptyWriterState, emptyWriterState, w) = (rs, s')"
    by (metis prod.exhaust)
  from runWrites_no_sinks [OF r] r ns
  show "stdoutAccepted (writes (exec (downloadCmd d url opts)))
              (downloadWrites d exec url opts w) = stdoutBytes (writes (exec (downloadCmd d url opts)))"
   and "stderrAccepted (writes (exec (downloadCmd d url opts)))
              (downloadWrites d exec url opts w) = stderrBytes (writes (exec (downloadCmd d url opts)))"
    by (simp_all add: downloadWrites_def)
qed

text \<open>A process that writes to both streams and exits with an error, and one that cannot be
  launched.\<close>

theorem failed_run_returns_captured_output_witness:
  "''u'' \<noteq> [] \<and> binPath \<lparr>binPath = ''yt-dlp''\<rparr> \<noteq> [] \<and>
   runErr (failedRun (downloadCmd \<lparr>binPath = ''yt-dlp''\<rparr> ''u'' plainOptions)) =
     Some (External ''exit status 1'') \<and>
   StdoutSink plainOptions = None \<and> StderrSink plainOptions = None \<and>
   fst (Download \<lparr>binPath = ''yt-dlp''\<rparr> failedRun ''u'' plainOptions ()) =
     (Some \<lparr>Stdout = ''out'', Stderr = '' boom\<newline>''\<rparr>,
      Some (YtDlpFailed (External ''exit status 1'') ''boom'')) \<and>
   runErr (launchFailure (downloadCmd \<lparr>binPath = ''yt-dlp''\<rparr> ''u'' plainOptions)) =
     Some (External ''fork/exec: no such file'') \<and>
   fst (Download \<lparr>binPath = ''yt-dlp''\<rparr> launchFailure ''u'' plainOptions ()) =
     (Some \<lparr>Stdout = [], Stderr = []\<rparr>,
      Some (YtDlpFailed (External ''fork/exec: no such file'') []))"
proof -
  have u: "''u'' \<noteq> []" by simp
  have b: "binPath \<lparr>binPath = ''yt-dlp''\<rparr> \<noteq> []" by simp
  have e: "runErr (failedRun (downloadCmd \<lparr>binPath = ''yt-dlp''\<rparr> ''u'' plainOptions)) =
      Some (External ''exit status 1'')"
    by (simp add: failedRun_def)
  have e': "runErr (launchFailure (downloadCmd \<lparr>binPath = ''yt-dlp''\<rparr> ''u'' plainOptions)) =
      Some (External ''fork/exec: no such file'')"
    by (simp add: launchFailure_def)
  have s: "StdoutSink plainOptions = None \<and> StderrSink plainOptions = None"
    by (simp add: plainOptions_def)
  have t: "TrimSpace '' boom\<newline>'' = ''boom''" "TrimSpace [] = []" by (simp_all add: trim_eval)
  from failed_run_returns_captured_output
         [where url = "''u''" and d = "\<lparr>binPath = ''yt-dlp''\<rparr>" and exec = failedRun
            and opts = plainOptions and w = "()", OF u b e]
       failed_run_returns_captured_output
         [where url = "''u''" and d = "\<lparr>binPath = ''yt-dlp''\<rparr>" and exec = launchFailure
            and opts = plainOptions and w = "()", OF u b e']
       s u b e e' t
  show ?thesis by (simp add: failedRun_def launchFailure_def)
qed

text \<open>
  Claim C10. With an empty URL, or with a URL and an empty binary path, \<^verbatim>\<open>Download\<close> returns
  no result (nil) and the configuration error (\<^verbatim>\<open>errURLRequired\<close> when the URL is empty,
  whatever the binary path); no process runs, so the callback is not called and the sinks
  are left as they were.
\<close>

theorem configuration_error_returns_no_result:
  "(url = [] \<longrightarrow> Download d exec url opts w = ((None, Some errURLRequired), [], w)) \<and>
   (url \<noteq> [] \<and> binPath d = [] \<longrightarrow>
      Download d exec url opts w = ((None, Some errBinaryNotConfigured), [], w))"
  by (simp add: Download_def)

theorem configuration_error_returns_no_result_witness:
  "Download \<lparr>binPath = ''yt-dlp''\<rparr> failedRun [] plainOptions () = ((None, Some errURLRequired), [], ()) \<and>
   Download \<lparr>binPath = []\<rparr> failedRun ''u'' plainOptions () = ((None, Some errBinaryNotConfigured), [], ()) \<and>
   Download \<lparr>binPath = []\<rparr> failedRun [] plainOptions () = ((None, Some errURLRequired), [], ())"
  using configuration_error_returns_no_result [of "[]" "\<lparr>binPath = ''yt-dlp''\<rparr>" failedRun plainOptions "()"]
    configuration_error_returns_no_result [of "''u''" "\<lparr>binPath = []\<rparr>" failedRun plainOptions "()"]
    configuration_error_returns_no_result [of "[]" "\<lparr>binPath = []\<rparr>" failedRun plainOptions "()"]
  by simp

text \<open>
  Claim C8. For options whose header map is given by its entries in any order (the keys of
  a map are distinct), \<^verbatim>\<open>buildArgs\<close> gives the flags of the options, then one
  \<^verbatim>\<open>--add-header\<close> flag for each header whose trimmed value is not empty, in increasing
  order of the keys, then the extra arguments as they are, then the URL, which is last.
  The order in which the entries of the map are met does not change the arguments.
\<close>

theorem buildArgs_headers_sorted_then_extra_then_url:
  assumes "distinct (map fst (Headers opts))"
  shows "buildArgs url opts =
           optionArgs opts @ headerFlags (map_of (Headers opts)) @ ExtraArgs opts @ [url] \<and>
         last (buildArgs url opts) = url \<and>
         (distinct (map fst hs') \<and> set hs' = set (Headers opts) \<longrightarrow>
            buildArgs url (opts\<lparr>Headers := hs'\<rparr>) = buildArgs url opts)"
proof -
  have shape: "buildArgs url o' =
           optionArgs o' @ headerFlags (map_of (Headers o')) @ ExtraArgs o' @ [url]"
    if d: "distinct (map fst (Headers o'))" for o' :: "'a Options"
  proof -
    have keys: "set (sort (map fst (Headers o'))) \<subseteq> dom (map_of (Headers o'))"
      by (simp add: dom_map_of_conv_image_fst)
    show ?thesis
    proof (cases "Headers o' = []")
      case True
      then show ?thesis by (simp add: buildArgs_def optionArgs_def headerFlags_def Let_def)
    next
      case False
      then show ?thesis
        by (simp add: buildArgs_def optionArgs_def headerFlags_def Let_def
              addHeaders_flags [OF keys] sorted_keys [OF d, symmetric])
    qed
  qed
  have "buildArgs url (opts\<lparr>Headers := hs'\<rparr>) = buildArgs url opts"
    if h: "distinct (map fst hs') \<and> set hs' = set (Headers opts)"
  proof -
    from h assms have "map_of hs' = map_of (Headers opts)"
      by (simp add: map_of_inject_set)
    with shape [OF assms] shape [of "opts\<lparr>Headers := hs'\<rparr>"] h show ?thesis
      by (simp add: optionArgs_def)
  qed
  with shape [OF assms] show ?thesis by simp
qed

text \<open>The headers \<^verbatim>\<open>{"Z": "1", "Empty": "  ", "A": " 2 "}\<close>, met in two orders: the flag of
  \<^verbatim>\<open>A\<close> comes before the flag of \<^verbatim>\<open>Z\<close>, and \<^verbatim>\<open>Empty\<close> has none.\<close>

theorem buildArgs_headers_sorted_then_extra_then_url_witness:
  "distinct (map fst (Headers zaOptions)) \<and>
   distinct (map fst (Headers azOptions)) \<and> set (Headers azOptions) = set (Headers zaOptions) \<and>
   buildArgs ''https://example.com/v'' zaOptions =
     [''--newline'', ''--no-progress'', ''-o'', ''%(title)s.%(ext)s'',
      ''--add-header'', ''A:2'', ''--add-header'', ''Z:1'',
      ''--no-playlist'', ''-v'', ''https://example.com/v''] \<and>
   optionArgs zaOptions @ headerFlags (map_of (Headers zaOptions)) @ ExtraArgs zaOptions @
       [''https://example.com/v''] =
     [''--newline'', ''--no-progress'', ''-o'', ''%(title)s.%(ext)s'',
      ''--add-header'', ''A:2'', ''--add-header'', ''Z:1'',
      ''--no-playlist'', ''-v'', ''https://example.com/v''] \<and>
   buildArgs ''https://example.com/v'' azOptions = buildArgs ''https://example.com/v'' zaOptions"
proof -
  have d: "distinct (map fst (Headers zaOptions))" by (simp add: zaOptions_def)
  have d': "distinct (map fst (Headers azOptions)) \<and>
      set (Headers azOptions) = set (Headers zaOptions)"
    by (auto simp: zaOptions_def azOptions_def)
  have az: "zaOptions\<lparr>Headers := Headers azOptions\<rparr> = azOptions"
    by (simp add: azOptions_def)
  have ev: "buildArgs ''https://example.com/v'' zaOptions =
     [''--newline'', ''--no-progress'', ''-o'', ''%(title)s.%(ext)s'',
      ''--add-header'', ''A:2'', ''--add-header'', ''Z:1'',
      ''--no-playlist'', ''-v'', ''https://example.com/v'']"
    by (simp add: buildArgs_def zaOptions_def trim_eval Let_def)
  from buildArgs_headers_sorted_then_extra_then_url
         [OF d, of "''https://example.com/v''" "Headers azOptions"] d d' az ev
  show ?thesis by simp
qed

subsection \<open>Claim C4: decoding a padded progress line\<close>




end
